theory Spec2Isabelle
  imports Main "HOL-Library.Char_ord" "HOL-Library.List_Lexorder" "HOL-Library.Sublist"
begin

section \<open>JavaScript strings as used by \<open>pilltag.js\<close>\<close>

text \<open>
  A JavaScript string is a sequence of UTF-16 code units. The embedding uses \<^typ>\<open>string\<close>,
  whose characters are the code units \<open>0..255\<close> (Latin-1). On this range the operations the
  component uses are total and length preserving: \<open>toLowerCase\<close> maps \<open>A-Z\<close>, \<open>U+00C0-U+00D6\<close>
  and \<open>U+00D8-U+00DE\<close> to the code unit 32 above; \<open>trim\<close> and the regular expression class
  \<open>\s\<close> see the code units 9 to 13, 32 and 160 as white space; \<open>\w\<close> is \<open>[A-Za-z0-9_]\<close>.
  \<open>toUpperCase\<close> is only ever applied to the first character of a \<open>\w\S*\<close> match, which is
  a \<open>\w\<close> character, so only its action on \<open>a-z\<close> matters.
\<close>

definition isSpace :: "char \<Rightarrow> bool" where
  "isSpace c = (let n = (of_char c :: nat) in (9 \<le> n \<and> n \<le> 13) \<or> n = 32 \<or> n = 160)"

definition isWord :: "char \<Rightarrow> bool" where
  "isWord c = (let n = (of_char c :: nat) in
     (48 \<le> n \<and> n \<le> 57) \<or> (65 \<le> n \<and> n \<le> 90) \<or> n = 95 \<or> (97 \<le> n \<and> n \<le> 122))"

definition lowerChar :: "char \<Rightarrow> char" where
  "lowerChar c = (let n = (of_char c :: nat) in
     if (65 \<le> n \<and> n \<le> 90) \<or> (192 \<le> n \<and> n \<le> 214) \<or> (216 \<le> n \<and> n \<le> 222)
     then char_of (n + 32) else c)"

definition upperChar :: "char \<Rightarrow> char" where
  "upperChar c = (let n = (of_char c :: nat) in
     if 97 \<le> n \<and> n \<le> 122 then char_of (n - 32) else c)"

definition toLowerCase :: "string \<Rightarrow> string" where
  "toLowerCase s = map lowerChar s"

definition trim :: "string \<Rightarrow> string" where
  "trim s = rev (dropWhile isSpace (rev (dropWhile isSpace s)))"

definition startsWith :: "string \<Rightarrow> string \<Rightarrow> bool" where
  "startsWith s p = (take (length p) s = p)"

text \<open>\<open>s.slice(n)\<close> with a non-negative \<open>n\<close>: the rest of \<open>s\<close> from index \<open>n\<close>, empty
  when \<open>n\<close> is beyond the end.\<close>

definition slice :: "nat \<Rightarrow> string \<Rightarrow> string" where
  "slice n s = drop n s"

text \<open>The callback of the \<open>replace\<close> calls:
  \<open>txt.charAt(0).toUpperCase() + txt.substr(1).toLowerCase()\<close>.\<close>

fun capitalize :: "string \<Rightarrow> string" where
  "capitalize [] = []"
| "capitalize (c # cs) = upperChar c # toLowerCase cs"

text \<open>\<open>s.replace(/\w\S*/g, capitalize)\<close>: scanning from the left, a match starts at the
  next \<open>\w\<close> character and runs through every following character that is not white space;
  the scan resumes after the match.\<close>

function titleCase :: "string \<Rightarrow> string" where
  "titleCase [] = []"
| "titleCase (c # cs) =
     (if isWord c
      then capitalize (c # takeWhile (\<lambda>x. \<not> isSpace x) cs)
             @ titleCase (dropWhile (\<lambda>x. \<not> isSpace x) cs)
      else c # titleCase cs)"
  by pat_completeness auto
termination
  by (relation "measure length") (auto simp: less_Suc_eq_le length_dropWhile_le)

text \<open>\<open>Array.from(new Set(xs))\<close>: the elements of \<open>xs\<close> in the order of their first
  occurrence.\<close>

definition uniq :: "string list \<Rightarrow> string list" where
  "uniq xs = foldl (\<lambda>acc x. if x \<in> set acc then acc else acc @ [x]) [] xs"

section \<open>The component\<close>

text \<open>
  Values a caller can assign to a property. The suggestion list is documented as an array
  of strings, so an array carries strings.
\<close>

datatype jsval =
    JUndefined
  | JNull
  | JBool bool
  | JNumber int
  | JString string
  | JArray "string list"
  | JObject

text \<open>The custom events, with their \<open>detail\<close>: \<open>TagUpdated newTag oldTag\<close>.\<close>

datatype event =
    TagClicked string
  | TagRemoved string
  | TagUpdated string string
  | TagAdded string

datatype display = DisplayNone | DisplayBlock | DisplayInlineBlock

datatype range = SelectContents | CollapsedAtEnd

datatype key = Enter | Escape | Tab | OtherKey

datatype error = TypeError

text \<open>
  The private fields of \<open>PillTag\<close> and the parts of the page they reach.
  The element \<open>#tag-text\<close> holds the draft in one text node (\<open>tagText\<close>), followed by the
  span \<open>#prediction\<close> when a ghost text is rendered (\<open>prediction\<close>); \<open>contenteditable\<close> is its
  attribute. \<open>labelDisplay\<close> is the \<open>display\<close> style of \<open>#auto-complete-label\<close>, the hint
  "Edit Tag...". \<open>events\<close> lists what \<open>dispatchEvent\<close> has sent and \<open>console\<close> what
  \<open>console.error\<close> has logged, oldest first. \<open>selection\<close> is the ranges of
  \<open>window.getSelection()\<close>, \<open>focused\<close> says whether \<open>#tag-text\<close> has the focus, and
  \<open>justConfirmed\<close> is the variable the listeners registered by the focus listener close over.
\<close>

record pilltag =
  editable :: bool
  removable :: bool
  tagText :: string
  prediction :: "string option"
  contenteditable :: bool
  labelDisplay :: display
  removeDisplay :: display
  autoComplete :: "string list"
  originalText :: string
  events :: "event list"
  console :: "string list"
  selection :: "range list"
  focused :: bool
  justConfirmed :: bool

text \<open>\<open>this.#tagText.textContent\<close>: reading concatenates the text of all descendants, the
  ghost text included; writing replaces all children by one text node.\<close>

definition tagText_textContent :: "pilltag \<Rightarrow> string" where
  "tagText_textContent s = tagText s @ (case prediction s of None \<Rightarrow> [] | Some g \<Rightarrow> g)"

definition set_tagText_textContent :: "string \<Rightarrow> pilltag \<Rightarrow> pilltag" where
  "set_tagText_textContent v s = s\<lparr>tagText := v, prediction := None\<rparr>"

definition dispatchEvent :: "event \<Rightarrow> pilltag \<Rightarrow> pilltag" where
  "dispatchEvent e s = s\<lparr>events := events s @ [e]\<rparr>"

definition console_error :: "string \<Rightarrow> pilltag \<Rightarrow> pilltag" where
  "console_error m s = s\<lparr>console := console s @ [m]\<rparr>"

text \<open>The constructor: \<open>rawText\<close> is the joined text of the child text nodes and \<open>attr\<close>
  the parsed \<open>auto-complete\<close> attribute when it is present. \<open>#editable\<close> and \<open>#removable\<close>
  start undefined, which every test in the class reads as false.\<close>

definition constructor :: "string \<Rightarrow> string list option \<Rightarrow> pilltag" where
  "constructor rawText attr =
     \<lparr> editable = False, removable = False,
       tagText = trim rawText, prediction = None, contenteditable = False,
       labelDisplay = DisplayNone, removeDisplay = DisplayNone,
       autoComplete = (case attr of None \<Rightarrow> [] | Some xs \<Rightarrow> xs),
       originalText = trim rawText,
       events = [], console = [], selection = [], focused = False, justConfirmed = False \<rparr>"

definition connectedCallback :: "bool \<Rightarrow> bool \<Rightarrow> pilltag \<Rightarrow> pilltag" where
  "connectedCallback hasEditable hasRemovable s =
     s\<lparr>editable := hasEditable, removable := hasRemovable\<rparr>"

subsection \<open>Properties\<close>

text \<open>\<open>addAutoComplete\<close> ends with \<open>setAttribute('auto-complete', JSON.stringify(...))\<close>. The
  attribute callback parses that text and assigns it through the \<open>autoComplete\<close> setter, which
  stores an equal array of strings, so the list is left as computed here.\<close>

definition addAutoComplete :: "jsval \<Rightarrow> pilltag \<Rightarrow> pilltag" where
  "addAutoComplete value s =
     (case value of
        JString v \<Rightarrow> s\<lparr>autoComplete := uniq (autoComplete s @ [titleCase v])\<rparr>
      | _ \<Rightarrow> console_error ''Value must be a string'' s)"

definition get_autoComplete :: "pilltag \<Rightarrow> string list" where
  "get_autoComplete s = autoComplete s"

definition set_autoComplete :: "jsval \<Rightarrow> pilltag \<Rightarrow> pilltag" where
  "set_autoComplete value s =
     (case value of
        JArray xs \<Rightarrow> s\<lparr>autoComplete := xs\<rparr>
      | _ \<Rightarrow> console_error ''auto-complete must be an array'' s)"

definition set_editable :: "jsval \<Rightarrow> pilltag \<Rightarrow> pilltag" where
  "set_editable value s = (case value of JBool b \<Rightarrow> s\<lparr>editable := b\<rparr> | _ \<Rightarrow> s)"

definition set_removable :: "jsval \<Rightarrow> pilltag \<Rightarrow> pilltag" where
  "set_removable value s =
     (case value of
        JBool b \<Rightarrow> s\<lparr>removable := b,
                     removeDisplay := (if b then DisplayInlineBlock else DisplayNone)\<rparr>
      | _ \<Rightarrow> s)"

definition get_textContent :: "pilltag \<Rightarrow> string" where
  "get_textContent s = originalText s"

definition set_textContent :: "jsval \<Rightarrow> pilltag \<Rightarrow> pilltag" where
  "set_textContent value s =
     (case value of
        JString v \<Rightarrow>
          (let s1 = set_tagText_textContent (trim v) s;
               s2 = s1\<lparr>originalText := trim v\<rparr>
           in addAutoComplete (JString (trim (tagText_textContent s2))) s2)
      | _ \<Rightarrow> console_error ''textContent must be a string'' s)"

subsection \<open>The edit session\<close>

text \<open>
  \<open>focus()\<close> and \<open>blur()\<close> are modelled by what they do to \<open>focused\<close>. The events they raise
  reach the listeners of the last subsection and change nothing further: a focus event
  raised inside \<open>openEdit\<close> makes the focus listener run \<open>openEdit\<close> on the same text, which
  takes the same snapshot and leaves the rest of the outer call nothing new to do; the blur
  event raised at the end of \<open>confirmEdit\<close> finds \<open>justConfirmed\<close> set by the key listener
  that called \<open>confirmEdit\<close>, whose blur listener then returns at once.
\<close>

definition openEdit :: "pilltag \<Rightarrow> pilltag" where
  "openEdit s =
     (if \<not> editable s then s
      else
        let s1 = s\<lparr>contenteditable := True\<rparr>;
            s2 = s1\<lparr>originalText := trim (tagText_textContent s1)\<rparr>;
            s3 = s2\<lparr>focused := True\<rparr>;
            s4 = (if trim (tagText_textContent s3) = ''New Tag''
                  then set_tagText_textContent [] s3 else s3)
        in if trim (tagText_textContent s4) = []
           then s4\<lparr>labelDisplay := DisplayBlock\<rparr>
           else s4\<lparr>labelDisplay := DisplayNone, selection := [SelectContents]\<rparr>)"

definition edit :: "pilltag \<Rightarrow> pilltag" where
  "edit s = openEdit s"

definition confirmEdit :: "pilltag \<Rightarrow> pilltag" where
  "confirmEdit s =
     (let s1 = (if trim (tagText_textContent s) \<noteq> []
                then
                  (let t = set_tagText_textContent (titleCase (trim (tagText_textContent s))) s
                   in addAutoComplete (JString (trim (tagText_textContent t))) t)
                else set_tagText_textContent ''New Tag'' s);
          s2 = s1\<lparr>contenteditable := False\<rparr>;
          s3 = (if trim (tagText_textContent s2) \<noteq> originalText s2
                     \<and> originalText s2 \<noteq> ''New Tag''
                then dispatchEvent
                       (TagUpdated (trim (tagText_textContent s2)) (originalText s2)) s2
                else s2);
          s4 = (if originalText s3 = ''New Tag''
                then dispatchEvent (TagAdded (trim (tagText_textContent s3))) s3
                else s3);
          s5 = s4\<lparr>originalText := trim (tagText_textContent s4)\<rparr>;
          s6 = s5\<lparr>labelDisplay := DisplayNone\<rparr>
      in s6\<lparr>focused := False\<rparr>)"

definition abortEdit :: "pilltag \<Rightarrow> pilltag" where
  "abortEdit s =
     (let s1 = (if trim (tagText_textContent s) \<noteq> []
                then
                  (let t = set_tagText_textContent (trim (tagText_textContent s)) s
                   in addAutoComplete (JString (trim (tagText_textContent t))) t)
                else set_tagText_textContent ''New Tag'' s);
          s2 = s1\<lparr>contenteditable := False\<rparr>;
          s3 = set_tagText_textContent (originalText s2) s2
      in s3\<lparr>labelDisplay := DisplayNone\<rparr>)"

subsection \<open>The prediction\<close>

text \<open>The matches of a draft in a suggestion list, and the one that is rendered:
  \<open>filtered.sort()[0]\<close>. The default \<open>sort\<close> orders strings by their code units, which is
  the order of \<^typ>\<open>string\<close> here.\<close>

definition candidates :: "string list \<Rightarrow> string \<Rightarrow> string list" where
  "candidates suggestions inputText =
     filter (\<lambda>item. startsWith (toLowerCase item) (trim (toLowerCase inputText))) suggestions"

definition selected :: "string list \<Rightarrow> string" where
  "selected filtered = hd (sort filtered)"

definition predictEdit :: "pilltag \<Rightarrow> pilltag" where
  "predictEdit s =
     (let inputText = tagText s;
          s1 = s\<lparr>prediction := None\<rparr>
      in if length (autoComplete s1) > 0 \<and> length inputText > 0
         then
           (let filtered = candidates (autoComplete s1) inputText
            in if length filtered > 0
               then s1\<lparr>prediction := Some (slice (length inputText) (selected filtered))\<rparr>
               else s1)
         else s1)"

text \<open>\<open>childNodes[0].textContent\<close> of \<open>#tag-text\<close>: the draft's text node when there is
  one, else the ghost span, else nothing.\<close>

definition firstChildText :: "pilltag \<Rightarrow> string option" where
  "firstChildText s = (if tagText s \<noteq> [] then Some (tagText s) else prediction s)"

definition confirmPrediction :: "pilltag \<Rightarrow> error + pilltag" where
  "confirmPrediction s =
     (case firstChildText s of
        None \<Rightarrow> Inl TypeError
      | Some inputText \<Rightarrow>
          (case prediction s of
             None \<Rightarrow> Inl TypeError
           | Some ghost \<Rightarrow>
               Inr ((set_tagText_textContent (inputText @ ghost) s)
                      \<lparr>selection := [CollapsedAtEnd]\<rparr>)))"

subsection \<open>The listeners\<close>

text \<open>
  The focus listener calls \<open>openEdit\<close> and registers a blur, a keydown and an input
  listener, anew at every focus event. The definitions describe one call of one registered
  listener of each kind. \<open>keydown\<close> also returns whether it called \<open>preventDefault\<close>. The
  callback given to \<open>setTimeout\<close> runs after the listener has returned and is
  \<open>timeoutCallback\<close>. \<open>input\<close> takes the text the user has left in the draft's text node.
\<close>

definition blur :: "pilltag \<Rightarrow> pilltag" where
  "blur s = (if justConfirmed s then s else abortEdit s)"

definition keydown :: "key \<Rightarrow> pilltag \<Rightarrow> error + (pilltag \<times> bool)" where
  "keydown k s =
     (case k of
        Enter \<Rightarrow> Inr (confirmEdit (s\<lparr>justConfirmed := True\<rparr>), True)
      | Escape \<Rightarrow> Inr (abortEdit s, True)
      | Tab \<Rightarrow>
          (case prediction s of
             Some _ \<Rightarrow>
               (case confirmPrediction s of
                  Inl e \<Rightarrow> Inl e
                | Inr s' \<Rightarrow> Inr (s', True))
           | None \<Rightarrow> Inr (confirmEdit (s\<lparr>justConfirmed := True\<rparr>), False))
      | OtherKey \<Rightarrow> Inr (s, False))"

definition timeoutCallback :: "pilltag \<Rightarrow> pilltag" where
  "timeoutCallback s = s\<lparr>justConfirmed := False\<rparr>"

definition input :: "string \<Rightarrow> pilltag \<Rightarrow> pilltag" where
  "input draft s =
     (let s1 = predictEdit (s\<lparr>tagText := draft\<rparr>)
      in s1\<lparr>labelDisplay :=
               (if length (tagText_textContent s1) > 0 then DisplayNone else DisplayBlock)\<rparr>)"

subsection \<open>Example tags\<close>

text \<open>\<open><he-pilltag editable auto-complete='[...]'>label</he-pilltag>\<close> once connected.\<close>

definition editableTag :: "string \<Rightarrow> string list \<Rightarrow> pilltag" where
  "editableTag label suggestions =
     connectedCallback True False (constructor label (Some suggestions))"

section \<open>Facts about the string operations\<close>

text \<open>Changing the case of a character never changes whether it is white space.\<close>

lemma isSpace_lowerChar: "isSpace (lowerChar c) = isSpace c"
  by (auto simp: isSpace_def lowerChar_def Let_def)

lemma isSpace_upperChar: "isSpace (upperChar c) = isSpace c"
  by (auto simp: isSpace_def upperChar_def Let_def)

lemma lowerChar_upperChar: "lowerChar (upperChar c) = lowerChar c"
  by (auto simp: lowerChar_def upperChar_def Let_def)

lemma lowerChar_idem: "lowerChar (lowerChar c) = lowerChar c"
  by (auto simp: lowerChar_def Let_def)

lemma spaces_toLowerCase: "map isSpace (toLowerCase s) = map isSpace s"
  by (simp add: toLowerCase_def isSpace_lowerChar)

lemma spaces_capitalize: "map isSpace (capitalize s) = map isSpace s"
  by (cases s) (simp_all add: isSpace_upperChar spaces_toLowerCase)

lemma spaces_titleCase: "map isSpace (titleCase s) = map isSpace s"
proof (induction s rule: titleCase.induct)
  case 1
  show ?case by simp
next
  case (2 c cs)
  show ?case
  proof (cases "isWord c")
    case True
    have "map isSpace (titleCase (c # cs)) =
            map isSpace (capitalize (c # takeWhile (\<lambda>x. \<not> isSpace x) cs))
              @ map isSpace (titleCase (dropWhile (\<lambda>x. \<not> isSpace x) cs))"
      using True by simp
    also have "\<dots> = map isSpace (c # takeWhile (\<lambda>x. \<not> isSpace x) cs)
              @ map isSpace (dropWhile (\<lambda>x. \<not> isSpace x) cs)"
      using 2(1)[OF True] by (simp only: spaces_capitalize)
    also have "\<dots> = map isSpace (c # cs)"
      by (simp flip: map_append)
    finally show ?thesis .
  next
    case False
    then show ?thesis using 2(2) by simp
  qed
qed

lemma toLowerCase_capitalize: "toLowerCase (capitalize s) = toLowerCase s"
  by (cases s) (simp_all add: toLowerCase_def lowerChar_upperChar lowerChar_idem)

lemma toLowerCase_append: "toLowerCase (a @ b) = toLowerCase a @ toLowerCase b"
  by (simp add: toLowerCase_def)

lemma toLowerCase_titleCase: "toLowerCase (titleCase s) = toLowerCase s"
proof (induction s rule: titleCase.induct)
  case 1
  show ?case by simp
next
  case (2 c cs)
  show ?case
  proof (cases "isWord c")
    case True
    have "toLowerCase (titleCase (c # cs)) =
            toLowerCase (c # takeWhile (\<lambda>x. \<not> isSpace x) cs)
              @ toLowerCase (dropWhile (\<lambda>x. \<not> isSpace x) cs)"
      using True 2(1)[OF True]
      by (simp only: titleCase.simps if_True toLowerCase_append toLowerCase_capitalize)
    also have "\<dots> = toLowerCase (c # cs)"
      by (simp add: toLowerCase_def flip: map_append)
    finally show ?thesis .
  next
    case False
    then show ?thesis using 2(2) by (simp add: toLowerCase_def)
  qed
qed

text \<open>A string is its own \<open>trim\<close> exactly when it neither starts nor ends with white
  space.\<close>

lemma trim_Nil: "trim [] = []"
  by (simp add: trim_def)

lemma trim_eq_self_iff:
  "trim s = s \<longleftrightarrow> (s = [] \<or> (\<not> isSpace (hd s) \<and> \<not> isSpace (last s)))"
proof (cases s)
  case Nil
  then show ?thesis by (simp add: trim_def)
next
  case (Cons c cs)
  show ?thesis
  proof
    assume eq: "trim s = s"
    have h: "\<not> isSpace (hd s)"
    proof
      assume sp: "isSpace (hd s)"
      have "length (trim s) \<le> length (dropWhile isSpace s)"
        using length_dropWhile_le [of isSpace "rev (dropWhile isSpace s)"]
        by (simp add: trim_def)
      also have "\<dots> < length s"
        using sp Cons by (simp add: less_Suc_eq_le length_dropWhile_le)
      finally show False using eq by simp
    qed
    have l: "\<not> isSpace (last s)"
    proof
      assume sp: "isSpace (last s)"
      have d: "dropWhile isSpace s = s" using h Cons by simp
      have "hd (rev s) = last s" using Cons by (simp add: hd_rev)
      then have "isSpace (hd (rev s))" using sp by simp
      moreover have "rev s \<noteq> []" using Cons by simp
      ultimately have "length (dropWhile isSpace (rev s)) < length (rev s)"
        by (cases "rev s") (simp_all add: less_Suc_eq_le length_dropWhile_le)
      then have "length (trim s) < length s"
        by (simp add: trim_def d)
      then show False using eq by simp
    qed
    show "s = [] \<or> (\<not> isSpace (hd s) \<and> \<not> isSpace (last s))"
      using h l by simp
  next
    assume "s = [] \<or> (\<not> isSpace (hd s) \<and> \<not> isSpace (last s))"
    then have h: "\<not> isSpace (hd s)" and l: "\<not> isSpace (last s)" using Cons by auto
    have d: "dropWhile isSpace s = s" using h Cons by simp
    have "hd (rev s) = last s" using Cons by (simp add: hd_rev)
    then have "dropWhile isSpace (rev s) = rev s"
      using l Cons by (cases "rev s") simp_all
    then show "trim s = s" by (simp add: trim_def d)
  qed
qed

lemma trim_idem: "trim (trim s) = trim s"
proof (cases "trim s = []")
  case True
  then show ?thesis by (simp add: trim_Nil)
next
  case False
  define a where "a = dropWhile isSpace s"
  define b where "b = dropWhile isSpace (rev a)"
  have t: "trim s = rev b" by (simp add: trim_def a_def b_def)
  have bne: "b \<noteq> []" using False t by simp
  have hb: "\<not> isSpace (hd b)" unfolding b_def using bne b_def hd_dropWhile by blast
  have ane: "a \<noteq> []" using bne b_def by auto
  have ha: "\<not> isSpace (hd a)" unfolding a_def using ane a_def hd_dropWhile by blast
  have "last (trim s) = hd b" using bne t by (simp add: last_rev)
  then have l: "\<not> isSpace (last (trim s))" using hb by simp
  obtain us where us: "rev a = us @ b"
    by (metis b_def takeWhile_dropWhile_id)
  then have "a = rev b @ rev us" by (metis rev_append rev_rev_ident)
  then have "hd a = hd (rev b)" using bne by simp
  then have h: "\<not> isSpace (hd (trim s))" using ha t by simp
  show ?thesis using h l by (simp add: trim_eq_self_iff)
qed

lemma trim_spaces_cong:
  assumes "map isSpace a = map isSpace b" and "trim b = b"
  shows "trim a = a"
proof (cases b)
  case Nil
  then have "a = []" using assms(1) by simp
  then show ?thesis by (simp add: trim_Nil)
next
  case (Cons c cs)
  then have ane: "a \<noteq> []" using assms(1) by auto
  have bne: "b \<noteq> []" using Cons by simp
  have "isSpace (hd a) = hd (map isSpace a)" using ane by (simp add: hd_map)
  also have "\<dots> = isSpace (hd b)" using assms(1) bne by (simp add: hd_map)
  finally have h: "isSpace (hd a) = isSpace (hd b)" .
  have "isSpace (last a) = last (map isSpace a)" using ane by (simp add: last_map)
  also have "\<dots> = isSpace (last b)" using assms(1) bne by (simp add: last_map)
  finally have l: "isSpace (last a) = isSpace (last b)" .
  show ?thesis using assms(2) h l bne ane by (simp add: trim_eq_self_iff)
qed

lemma trim_titleCase: "trim (titleCase (trim s)) = titleCase (trim s)"
  by (rule trim_spaces_cong [OF spaces_titleCase trim_idem])

lemma trim_toLowerCase: "trim (toLowerCase s) = toLowerCase (trim s)"
proof -
  have c: "isSpace \<circ> lowerChar = isSpace"
    by (rule ext) (simp add: isSpace_lowerChar)
  show ?thesis
    by (simp add: trim_def toLowerCase_def dropWhile_map rev_map c)
qed

lemma set_uniq_aux:
  "set (foldl (\<lambda>acc x. if x \<in> set acc then acc else acc @ [x]) a xs) = set a \<union> set xs"
  by (induction xs arbitrary: a) auto

lemma set_uniq: "set (uniq xs) = set xs"
  by (simp add: uniq_def set_uniq_aux)

lemma selected_least:
  assumes "xs \<noteq> []"
  shows "selected xs \<in> set xs" and "\<And>x. x \<in> set xs \<Longrightarrow> selected xs \<le> x"
proof -
  have ne: "sort xs \<noteq> []" using assms by (metis length_sort length_0_conv)
  then obtain y ys where s: "sort xs = y # ys" by (cases "sort xs") auto
  have "y \<in> set (sort xs)" using s by simp
  then have "y \<in> set xs" by (simp only: set_sort)
  then show "selected xs \<in> set xs" using s by (simp add: selected_def)
  fix x assume "x \<in> set xs"
  then have "x \<in> set (y # ys)" using s by (metis set_sort)
  moreover have "sorted (y # ys)" using s by (metis sorted_sort)
  ultimately show "selected xs \<le> x" using s by (auto simp: selected_def)
qed

section \<open>Facts about the component\<close>

lemmas dom_defs =
  tagText_textContent_def set_tagText_textContent_def dispatchEvent_def console_error_def
  addAutoComplete_def

lemma trim_placeholder: "trim ''New Tag'' = ''New Tag''"
  by code_simp

lemma tc_set [simp]: "tagText_textContent (set_tagText_textContent v s) = v"
  by (simp add: dom_defs)

text \<open>What \<open>openEdit\<close> leaves when editing is enabled.\<close>

lemma openEdit_originalText:
  "editable s \<Longrightarrow> originalText (openEdit s) = trim (tagText_textContent s)"
  by (simp add: openEdit_def Let_def dom_defs)

lemma openEdit_placeholder:
  assumes "editable s" and "trim (tagText_textContent s) = ''New Tag''"
  shows "openEdit s = s\<lparr>contenteditable := True, originalText := ''New Tag'', focused := True,
                         tagText := [], prediction := None, labelDisplay := DisplayBlock\<rparr>"
  using assms by (simp add: openEdit_def Let_def dom_defs trim_Nil)

text \<open>The value \<open>confirmEdit\<close> leaves in the element, and the events it sends.\<close>

lemma confirmEdit_value:
  "tagText_textContent (confirmEdit s) =
     (if trim (tagText_textContent s) \<noteq> [] then titleCase (trim (tagText_textContent s))
      else ''New Tag'')"
  by (simp add: confirmEdit_def Let_def dom_defs)

lemma confirmEdit_events:
  "events (confirmEdit s) =
     (let v = (if trim (tagText_textContent s) \<noteq> [] then titleCase (trim (tagText_textContent s))
               else ''New Tag'')
      in events s
         @ (if v \<noteq> originalText s \<and> originalText s \<noteq> ''New Tag''
            then [TagUpdated v (originalText s)] else [])
         @ (if originalText s = ''New Tag'' then [TagAdded v] else []))"
  by (simp add: confirmEdit_def Let_def dom_defs trim_titleCase trim_placeholder)

lemma confirmEdit_originalText:
  "originalText (confirmEdit s) = tagText_textContent (confirmEdit s)"
  by (simp add: confirmEdit_def Let_def dom_defs trim_titleCase trim_placeholder)

lemma startsWith_prefix: "startsWith s p = prefix p s"
proof
  assume "startsWith s p"
  then have "take (length p) s = p" by (simp add: startsWith_def)
  then show "prefix p s" by (metis take_is_prefix)
next
  assume "prefix p s"
  then obtain r where "s = p @ r" by (auto simp: prefix_def)
  then show "startsWith s p" by (simp add: startsWith_def)
qed

lemma candidates_set:
  "set (candidates S T) = {x \<in> set S. prefix (toLowerCase (trim T)) (toLowerCase x)}"
  by (auto simp: candidates_def startsWith_prefix trim_toLowerCase)

lemma candidates_Nil: "candidates [] T = []"
  by (simp add: candidates_def)

lemma predictEdit_eq:
  "predictEdit s =
     s\<lparr>prediction :=
         (if autoComplete s \<noteq> [] \<and> tagText s \<noteq> [] \<and> candidates (autoComplete s) (tagText s) \<noteq> []
          then Some (drop (length (tagText s)) (selected (candidates (autoComplete s) (tagText s))))
          else None)\<rparr>"
  by (simp add: predictEdit_def Let_def slice_def)

lemma trim_prefix:
  assumes "T \<noteq> []" and "\<not> isSpace (hd T)"
  shows "prefix (trim T) T"
proof -
  have d: "dropWhile isSpace T = T" using assms by (cases T) simp_all
  have "T = rev (takeWhile isSpace (rev T) @ dropWhile isSpace (rev T))"
    by (simp only: takeWhile_dropWhile_id rev_rev_ident)
  then have "T = rev (dropWhile isSpace (rev T)) @ rev (takeWhile isSpace (rev T))"
    by (simp only: rev_append)
  then have "T = trim T @ rev (takeWhile isSpace (rev T))"
    by (simp only: trim_def d)
  then show ?thesis by (metis prefixI)
qed

lemma prefix_toLowerCase: "prefix a b \<Longrightarrow> prefix (toLowerCase a) (toLowerCase b)"
  by (auto simp: prefix_def toLowerCase_def)

lemma self_candidate:
  assumes "T \<noteq> []" and "\<not> isSpace (hd T)" and "T \<in> set S"
  shows "T \<in> set (candidates S T)"
  using assms by (simp add: candidates_set prefix_toLowerCase trim_prefix)

text \<open>A prediction is only rendered behind a non-empty draft, and accepting it then
  appends the ghost text to the draft.\<close>

lemma predictEdit_draft:
  "prediction (predictEdit s) = Some g \<Longrightarrow> tagText (predictEdit s) \<noteq> []"
  by (simp add: predictEdit_eq split: if_splits)

lemma confirmPrediction_eq:
  assumes "prediction s = Some g" and "tagText s \<noteq> []"
  shows "confirmPrediction s =
           Inr (s\<lparr>tagText := tagText s @ g, prediction := None, selection := [CollapsedAtEnd]\<rparr>)"
  using assms by (simp add: confirmPrediction_def firstChildText_def set_tagText_textContent_def)

text \<open>After \<open>openEdit\<close>, typing changes neither the snapshot nor what \<open>abortEdit\<close> restores.\<close>

lemma input_originalText: "originalText (input D s) = originalText s"
  by (simp add: input_def Let_def predictEdit_eq)

lemma fold_input_originalText: "originalText (fold input Ds s) = originalText s"
  by (induction Ds arbitrary: s) (simp_all add: input_originalText)

lemma input_events: "events (input D s) = events s"
  by (simp add: input_def Let_def predictEdit_eq)

lemma fold_input_events: "events (fold input Ds s) = events s"
  by (induction Ds arbitrary: s) (simp_all add: input_events)

lemma abortEdit_value: "tagText_textContent (abortEdit s) = originalText s"
  by (simp add: abortEdit_def Let_def dom_defs)

lemma abortEdit_autoComplete:
  "autoComplete (abortEdit s) =
     (if trim (tagText_textContent s) \<noteq> []
      then uniq (autoComplete s @ [titleCase (trim (tagText_textContent s))])
      else autoComplete s)"
  by (simp add: abortEdit_def Let_def dom_defs trim_idem)

lemma openEdit_autoComplete: "autoComplete (openEdit s) = autoComplete s"
  by (simp add: openEdit_def Let_def dom_defs)

lemma input_prediction:
  "prediction (input T s) =
     (if autoComplete s \<noteq> [] \<and> T \<noteq> [] \<and> candidates (autoComplete s) T \<noteq> []
      then Some (drop (length T) (selected (candidates (autoComplete s) T)))
      else None)"
  by (simp add: input_def Let_def predictEdit_eq)

text \<open>Outside an edit session the element shows a trimmed value that equals the snapshot:
  the constructor, the \<open>textContent\<close> setter and \<open>confirmEdit\<close> each leave it so.\<close>

lemma constructor_shown:
  "tagText_textContent (constructor rawText attr) = trim rawText
   \<and> originalText (constructor rawText attr) = trim rawText"
  by (simp add: constructor_def tagText_textContent_def)

lemma set_textContent_shown:
  "tagText_textContent (set_textContent (JString v) s) = trim v
   \<and> originalText (set_textContent (JString v) s) = trim v"
  by (simp add: set_textContent_def Let_def dom_defs)

lemma confirmEdit_shown:
  "trim (tagText_textContent (confirmEdit s)) = tagText_textContent (confirmEdit s)"
  by (simp add: confirmEdit_value trim_titleCase trim_placeholder)

section \<open>The claims\<close>

text \<open>
  C1 (as amended). From the placeholder state with editing enabled, entering edit mode,
  typing so that the element text (the draft and any ghost text) is empty after trimming,
  in particular typing nothing, and confirming shows the placeholder \<open>New Tag\<close> again,
  sends no \<open>he-tag-updated\<close>, and sends exactly one \<open>he-tag-added\<close> whose \<open>newTag\<close> is the
  placeholder.
\<close>

theorem placeholder_round_trip:
  assumes "editable s" and "trim (tagText_textContent s) = ''New Tag''"
    and "trim (tagText_textContent (fold input Ds (openEdit s))) = []"
  shows "tagText_textContent (confirmEdit (fold input Ds (openEdit s))) = ''New Tag''
       \<and> events (confirmEdit (fold input Ds (openEdit s))) = events s @ [TagAdded ''New Tag'']"
proof -
  let ?t = "fold input Ds (openEdit s)"
  have ot: "originalText ?t = ''New Tag''"
    using assms(1,2) by (simp add: fold_input_originalText openEdit_originalText)
  have ev: "events ?t = events s"
    by (simp add: fold_input_events openEdit_placeholder [OF assms(1,2)])
  show ?thesis
    by (simp add: confirmEdit_value confirmEdit_events ot ev assms(3))
qed

theorem placeholder_round_trip_witness:
  "editable (editableTag ''New Tag'' [''Apple''])
   \<and> trim (tagText_textContent (editableTag ''New Tag'' [''Apple''])) = ''New Tag''
   \<and> trim (tagText_textContent
         (fold input [''x'', []] (openEdit (editableTag ''New Tag'' [''Apple''])))) = []
   \<and> tagText_textContent
        (confirmEdit (fold input [''x'', []] (openEdit (editableTag ''New Tag'' [''Apple'']))))
       = ''New Tag''
   \<and> events (confirmEdit (fold input [''x'', []] (openEdit (editableTag ''New Tag'' [''Apple'']))))
       = [TagAdded ''New Tag'']"
proof -
  let ?s = "editableTag ''New Tag'' [''Apple'']"
  have h1: "editable ?s" by code_simp
  have h2: "trim (tagText_textContent ?s) = ''New Tag''" by code_simp
  have h3: "trim (tagText_textContent (fold input [''x'', []] (openEdit ?s))) = []" by code_simp
  have e: "events ?s = []" by code_simp
  show ?thesis
    using placeholder_round_trip [OF h1 h2 h3] h1 h2 h3 e by simp
qed

text \<open>
  The claim as first stated, that no \<open>he-tag-added\<close> is sent, fails: the second test of
  \<open>confirmEdit\<close> looks at \<open>originalText\<close> only.
\<close>

theorem placeholder_round_trip_counterexample:
  "events (confirmEdit (openEdit (editableTag ''New Tag'' []))) = [TagAdded ''New Tag'']"
  by code_simp

text \<open>
  C2. On every confirm, \<open>he-tag-updated\<close> with \<open>{newTag, oldTag: originalText}\<close> is sent exactly
  when the confirmed value differs from \<open>originalText\<close> and \<open>originalText\<close> is not the
  placeholder; \<open>he-tag-added\<close> with \<open>{newTag}\<close> is sent exactly when \<open>originalText\<close> is the
  placeholder, whatever the confirmed value; nothing else is sent. The confirmed value is
  the title-cased trimmed element text, or the placeholder when that text is empty.
\<close>

theorem confirm_notifications:
  "events (confirmEdit s) =
     events s
     @ (if tagText_textContent (confirmEdit s) \<noteq> originalText s \<and> originalText s \<noteq> ''New Tag''
        then [TagUpdated (tagText_textContent (confirmEdit s)) (originalText s)] else [])
     @ (if originalText s = ''New Tag''
        then [TagAdded (tagText_textContent (confirmEdit s))] else [])
   \<and> tagText_textContent (confirmEdit s) =
       (if trim (tagText_textContent s) \<noteq> [] then titleCase (trim (tagText_textContent s))
        else ''New Tag'')"
  by (simp add: confirmEdit_events confirmEdit_value Let_def)

theorem confirm_notifications_witness:
  "events (confirmEdit (input ''app le'' (openEdit (editableTag ''Fruit'' []))))
     = [TagUpdated ''App Le'' ''Fruit'']"
proof -
  let ?s = "input ''app le'' (openEdit (editableTag ''Fruit'' []))"
  have a: "tagText_textContent (confirmEdit ?s) = ''App Le''" by code_simp
  have b: "originalText ?s = ''Fruit''" by code_simp
  have c: "events ?s = []" by code_simp
  from confirm_notifications [of ?s] show ?thesis
    by (simp add: a b c)
qed

text \<open>
  C3 (as amended). For every suggestion list \<open>S\<close> and draft \<open>T\<close> the candidates are exactly
  the elements of \<open>S\<close> whose lower-case form starts with the lower-case trimmed draft; and
  whenever \<open>S\<close> is empty or the draft itself, before trimming, is empty, \<open>predictEdit\<close>
  renders no prediction and removes a ghost text rendered before.
\<close>

theorem prediction_filter:
  "set (candidates S T) = {x \<in> set S. prefix (toLowerCase (trim T)) (toLowerCase x)}
   \<and> (autoComplete s = [] \<or> tagText s = [] \<longrightarrow> predictEdit s = s\<lparr>prediction := None\<rparr>)"
  by (simp add: candidates_set predictEdit_eq)

text \<open>
  The claim as first stated speaks of the trimmed draft. The guard of \<open>predictEdit\<close> tests
  the length of the draft as typed: a draft of one blank trims to the empty string, every
  suggestion matches it, and a ghost text is rendered.
\<close>

theorem prediction_filter_counterexample:
  "trim '' '' = []
   \<and> prediction (input '' '' (openEdit (editableTag ''Fruit'' [''Apple'']))) = Some ''pple''"
  by code_simp

theorem prediction_filter_witness:
  "set (candidates [''Apple'', ''Banana'', ''apricot''] ''aP '')
     = {x \<in> set [''Apple'', ''Banana'', ''apricot''].
          prefix (toLowerCase (trim ''aP '')) (toLowerCase x)}
   \<and> (autoComplete (input [] (openEdit (editableTag ''Fruit'' [''Apple''])))  = []
        \<or> tagText (input [] (openEdit (editableTag ''Fruit'' [''Apple'']))) = [])
   \<and> predictEdit (input [] (openEdit (editableTag ''Fruit'' [''Apple''])))
       = (input [] (openEdit (editableTag ''Fruit'' [''Apple''])))\<lparr>prediction := None\<rparr>"
proof -
  let ?s = "input [] (openEdit (editableTag ''Fruit'' [''Apple'']))"
  have h: "autoComplete ?s = [] \<or> tagText ?s = []" by code_simp
  from prediction_filter [of "[''Apple'', ''Banana'', ''apricot'']" "''aP ''" ?s] h
  show ?thesis by blast
qed

text \<open>
  C4. When a non-empty draft has candidates, the match that is rendered is one of them and
  is least among them in the order of strings by code units, upper case before lower case;
  the ghost text is that match from the draft's length to its end. For the suggestions
  \<open>apple\<close>, \<open>Apricot\<close>, \<open>avocado\<close> and the draft \<open>a\<close> this is \<open>Apricot\<close>, rendered as
  \<open>pricot\<close>.
\<close>

theorem prediction_tie_break:
  assumes "tagText s \<noteq> []" and "candidates (autoComplete s) (tagText s) \<noteq> []"
  shows "selected (candidates (autoComplete s) (tagText s))
           \<in> set (candidates (autoComplete s) (tagText s))
       \<and> (\<forall>c \<in> set (candidates (autoComplete s) (tagText s)).
             selected (candidates (autoComplete s) (tagText s)) \<le> c)
       \<and> prediction (predictEdit s)
           = Some (drop (length (tagText s)) (selected (candidates (autoComplete s) (tagText s))))"
proof -
  have "autoComplete s \<noteq> []" using assms(2) by (auto simp: candidates_Nil)
  then show ?thesis
    using assms selected_least [OF assms(2)] by (simp add: predictEdit_eq)
qed

theorem prediction_tie_break_witness:
  "tagText (input ''a'' (openEdit (editableTag ''Fruit'' [''apple'', ''Apricot'', ''avocado''])))
     \<noteq> []
   \<and> candidates [''apple'', ''Apricot'', ''avocado''] ''a'' = [''apple'', ''Apricot'', ''avocado'']
   \<and> selected [''apple'', ''Apricot'', ''avocado''] = ''Apricot''
   \<and> ''Apricot'' \<le> ''apple'' \<and> ''Apricot'' \<le> ''avocado''
   \<and> prediction (predictEdit
        (input ''a'' (openEdit (editableTag ''Fruit'' [''apple'', ''Apricot'', ''avocado'']))))
       = Some ''pricot''"
proof -
  let ?s = "input ''a'' (openEdit (editableTag ''Fruit'' [''apple'', ''Apricot'', ''avocado'']))"
  have t: "tagText ?s = ''a''" by code_simp
  have a: "autoComplete ?s = [''apple'', ''Apricot'', ''avocado'']" by code_simp
  have c: "candidates [''apple'', ''Apricot'', ''avocado''] ''a''
             = [''apple'', ''Apricot'', ''avocado'']" by code_simp
  have m: "selected [''apple'', ''Apricot'', ''avocado''] = ''Apricot''" by code_simp
  have h1: "tagText ?s \<noteq> []" by (simp add: t)
  have h2: "candidates (autoComplete ?s) (tagText ?s) \<noteq> []" by (simp add: t a c)
  from prediction_tie_break [OF h1 h2] show ?thesis
    by (simp add: t a c m)
qed

text \<open>
  C5 (as amended). While editing, one call of the \<open>keydown\<close> listener for Tab with a
  prediction rendered behind a non-empty draft accepts it: the new draft is the draft
  followed by the ghost text, the caret is put at the end, and nothing else changes, so the
  element stays editable and nothing is confirmed. With no prediction rendered, Tab confirms
  exactly as Enter does, Enter alone suppressing the key's default action. When the draft is
  non-empty, does not start with white space and equals a suggestion, a prediction is
  rendered and Tab accepts it rather than confirming; its ghost text is empty, and accepting
  leaves the draft as it is, when that suggestion is the match selected by the sort.
\<close>

theorem tab_disambiguation:
  "(prediction s = Some g \<and> tagText s \<noteq> [] \<longrightarrow>
      keydown Tab s =
        Inr (s\<lparr>tagText := tagText s @ g, prediction := None, selection := [CollapsedAtEnd]\<rparr>,
             True))
   \<and> (prediction t = None \<longrightarrow>
        keydown Tab t = Inr (confirmEdit (t\<lparr>justConfirmed := True\<rparr>), False)
        \<and> keydown Enter t = Inr (confirmEdit (t\<lparr>justConfirmed := True\<rparr>), True))
   \<and> (tagText u \<noteq> [] \<and> \<not> isSpace (hd (tagText u)) \<and> tagText u \<in> set (autoComplete u) \<longrightarrow>
        prediction (predictEdit u) \<noteq> None
        \<and> keydown Tab (predictEdit u) =
            Inr ((predictEdit u)\<lparr>tagText := tagText u @ the (prediction (predictEdit u)),
                                 prediction := None, selection := [CollapsedAtEnd]\<rparr>, True)
        \<and> (selected (candidates (autoComplete u) (tagText u)) = tagText u \<longrightarrow>
              prediction (predictEdit u) = Some []
              \<and> keydown Tab (predictEdit u) =
                  Inr ((predictEdit u)\<lparr>prediction := None, selection := [CollapsedAtEnd]\<rparr>, True)))"
proof (intro conjI impI)
  assume "prediction s = Some g \<and> tagText s \<noteq> []"
  then show "keydown Tab s =
        Inr (s\<lparr>tagText := tagText s @ g, prediction := None, selection := [CollapsedAtEnd]\<rparr>,
             True)"
    by (simp add: keydown_def confirmPrediction_eq)
next
  assume "prediction t = None"
  then show "keydown Tab t = Inr (confirmEdit (t\<lparr>justConfirmed := True\<rparr>), False)"
    by (simp add: keydown_def)
next
  show "keydown Enter t = Inr (confirmEdit (t\<lparr>justConfirmed := True\<rparr>), True)"
    by (simp add: keydown_def)
next
  assume a: "tagText u \<noteq> [] \<and> \<not> isSpace (hd (tagText u)) \<and> tagText u \<in> set (autoComplete u)"
  then have c: "tagText u \<in> set (candidates (autoComplete u) (tagText u))"
    by (simp add: self_candidate)
  then have ne: "candidates (autoComplete u) (tagText u) \<noteq> []" by auto
  have an: "autoComplete u \<noteq> []" using a by auto
  show p: "prediction (predictEdit u) \<noteq> None"
    using a ne an by (simp add: predictEdit_eq)
  then obtain g where g: "prediction (predictEdit u) = Some g" by auto
  have tt: "tagText (predictEdit u) = tagText u" by (simp add: predictEdit_eq)
  show "keydown Tab (predictEdit u) =
            Inr ((predictEdit u)\<lparr>tagText := tagText u @ the (prediction (predictEdit u)),
                                 prediction := None, selection := [CollapsedAtEnd]\<rparr>, True)"
    using a g tt by (simp add: keydown_def confirmPrediction_eq)
  assume "selected (candidates (autoComplete u) (tagText u)) = tagText u"
  then show e: "prediction (predictEdit u) = Some []"
    using a ne an by (simp add: predictEdit_eq)
  have "(predictEdit u)\<lparr>tagText := tagText (predictEdit u) @ []\<rparr> = predictEdit u"
    by simp
  then show "keydown Tab (predictEdit u) =
                  Inr ((predictEdit u)\<lparr>prediction := None, selection := [CollapsedAtEnd]\<rparr>, True)"
    using a e tt by (simp add: keydown_def confirmPrediction_eq)
qed

text \<open>
  The claim as first stated gives an empty ghost text whenever the draft equals a suggestion.
  With the suggestions \<open>a\<close> and \<open>Ab\<close> the draft \<open>a\<close> equals the first, yet \<open>Ab\<close> sorts
  before it and the ghost text is \<open>b\<close>.
\<close>

theorem tab_disambiguation_counterexample:
  "''a'' \<in> set [''a'', ''Ab'']
   \<and> prediction (input ''a'' (openEdit (editableTag ''Fruit'' [''a'', ''Ab'']))) = Some ''b''"
  by code_simp

theorem tab_disambiguation_witness:
  "prediction (input ''App'' (openEdit (editableTag ''Fruit'' [''Apple'', ''Apricot''])))
     = Some ''le''
   \<and> tagText (input ''App'' (openEdit (editableTag ''Fruit'' [''Apple'', ''Apricot'']))) \<noteq> []
   \<and> keydown Tab (input ''App'' (openEdit (editableTag ''Fruit'' [''Apple'', ''Apricot''])))
       = Inr ((input ''App'' (openEdit (editableTag ''Fruit'' [''Apple'', ''Apricot''])))
                \<lparr>tagText := ''Apple'', prediction := None, selection := [CollapsedAtEnd]\<rparr>, True)
   \<and> prediction (input ''Appx'' (openEdit (editableTag ''Fruit'' [''Apple'', ''Apricot''])))
       = None
   \<and> keydown Tab (input ''Appx'' (openEdit (editableTag ''Fruit'' [''Apple'', ''Apricot''])))
       = Inr (confirmEdit
                ((input ''Appx'' (openEdit (editableTag ''Fruit'' [''Apple'', ''Apricot''])))
                   \<lparr>justConfirmed := True\<rparr>), False)
   \<and> keydown Enter (input ''Appx'' (openEdit (editableTag ''Fruit'' [''Apple'', ''Apricot''])))
       = Inr (confirmEdit
                ((input ''Appx'' (openEdit (editableTag ''Fruit'' [''Apple'', ''Apricot''])))
                   \<lparr>justConfirmed := True\<rparr>), True)
   \<and> tagText (input ''Apple'' (openEdit (editableTag ''Fruit'' [''Apple'', ''Apricot''])))
       = ''Apple''
   \<and> selected (candidates [''Apple'', ''Apricot''] ''Apple'') = ''Apple''
   \<and> prediction
        (predictEdit (input ''Apple'' (openEdit (editableTag ''Fruit'' [''Apple'', ''Apricot'']))))
       = Some []
   \<and> keydown Tab
        (predictEdit (input ''Apple'' (openEdit (editableTag ''Fruit'' [''Apple'', ''Apricot'']))))
       = Inr ((predictEdit
                 (input ''Apple'' (openEdit (editableTag ''Fruit'' [''Apple'', ''Apricot'']))))
                \<lparr>prediction := None, selection := [CollapsedAtEnd]\<rparr>, True)"
proof -
  let ?e = "openEdit (editableTag ''Fruit'' [''Apple'', ''Apricot''])"
  let ?s = "input ''App'' ?e"
  let ?t = "input ''Appx'' ?e"
  let ?u = "input ''Apple'' ?e"
  have s1: "prediction ?s = Some ''le''" by code_simp
  have s2: "tagText ?s = ''App''" by code_simp
  have s3: "tagText ?s \<noteq> []" by (simp add: s2)
  have t1: "prediction ?t = None" by code_simp
  have u1: "tagText ?u = ''Apple''" by code_simp
  have u2: "tagText ?u \<noteq> []" by (simp add: u1)
  have u3: "\<not> isSpace (hd (tagText ?u))" by code_simp
  have u4: "tagText ?u \<in> set (autoComplete ?u)" by code_simp
  have u5: "selected (candidates [''Apple'', ''Apricot''] ''Apple'') = ''Apple''" by code_simp
  have u6: "selected (candidates (autoComplete ?u) (tagText ?u)) = tagText ?u" by code_simp
  note th = tab_disambiguation [of ?s "''le''" ?t ?u]
  have c1: "keydown Tab ?s =
      Inr (?s\<lparr>tagText := tagText ?s @ ''le'', prediction := None,
              selection := [CollapsedAtEnd]\<rparr>, True)"
    using th s1 s3 by blast
  have c2: "keydown Tab ?t = Inr (confirmEdit (?t\<lparr>justConfirmed := True\<rparr>), False)"
    using th t1 by blast
  have c3: "keydown Enter ?t = Inr (confirmEdit (?t\<lparr>justConfirmed := True\<rparr>), True)"
    using th t1 by blast
  have c4: "prediction (predictEdit ?u) = Some []"
    using th u2 u3 u4 u6 by blast
  have c5: "keydown Tab (predictEdit ?u) =
      Inr ((predictEdit ?u)\<lparr>prediction := None, selection := [CollapsedAtEnd]\<rparr>, True)"
    using th u2 u3 u4 u6 by blast
  have c1': "keydown Tab ?s =
      Inr (?s\<lparr>tagText := ''Apple'', prediction := None,
              selection := [CollapsedAtEnd]\<rparr>, True)"
    using c1 by (simp add: s2)
  show ?thesis
    using s1 s3 c1' t1 c2 c3 u1 u5 c4 c5 by blast
qed

text \<open>
  C6. For every sequence of drafts typed after entering edit mode, aborting (the Escape key,
  or a blur that does not follow a confirm) shows the \<open>originalText\<close> snapshot again, which
  is the trimmed value shown before the entry; a value shown outside a session is trimmed,
  and then entering, typing and aborting leave the shown value as it was.
\<close>

theorem abort_restores:
  assumes "editable s"
  shows "tagText_textContent (abortEdit (fold input Ds (openEdit s))) = originalText (openEdit s)
       \<and> originalText (openEdit s) = trim (tagText_textContent s)
       \<and> (trim (tagText_textContent s) = tagText_textContent s \<longrightarrow>
            tagText_textContent (abortEdit (fold input Ds (openEdit s))) = tagText_textContent s)
       \<and> keydown Escape (fold input Ds (openEdit s))
            = Inr (abortEdit (fold input Ds (openEdit s)), True)
       \<and> (\<not> justConfirmed (fold input Ds (openEdit s)) \<longrightarrow>
            blur (fold input Ds (openEdit s)) = abortEdit (fold input Ds (openEdit s)))"
  using assms
  by (simp add: abortEdit_value fold_input_originalText openEdit_originalText keydown_def blur_def)

theorem abort_restores_witness:
  "editable (editableTag ''Apple'' [''Apple''])
   \<and> trim (tagText_textContent (editableTag ''Apple'' [''Apple'']))
       = tagText_textContent (editableTag ''Apple'' [''Apple''])
   \<and> \<not> justConfirmed (fold input [''B'', ''Ba'', ''Ban''] (openEdit (editableTag ''Apple'' [''Apple''])))
   \<and> tagText_textContent
        (abortEdit (fold input [''B'', ''Ba'', ''Ban''] (openEdit (editableTag ''Apple'' [''Apple'']))))
       = ''Apple''
   \<and> blur (fold input [''B'', ''Ba'', ''Ban''] (openEdit (editableTag ''Apple'' [''Apple''])))
       = abortEdit (fold input [''B'', ''Ba'', ''Ban''] (openEdit (editableTag ''Apple'' [''Apple''])))"
proof -
  let ?s = "editableTag ''Apple'' [''Apple'']"
  have h: "editable ?s" by code_simp
  have t: "tagText_textContent ?s = ''Apple''" by code_simp
  have r: "trim ''Apple'' = ''Apple''" by code_simp
  have j: "\<not> justConfirmed (fold input [''B'', ''Ba'', ''Ban''] (openEdit ?s))" by code_simp
  from abort_restores [OF h, of "[''B'', ''Ba'', ''Ban'']"] show ?thesis
    using h j by (simp add: t r)
qed

text \<open>
  C7 (as amended). Aborting when the trimmed element text is not empty adds the title-cased
  form of that text to the suggestions, so that it is a candidate, and a prediction is
  rendered, for every later non-empty draft whose lower-case trimmed form is a prefix of its
  lower-case form; the shown value still reverts to \<open>originalText\<close>. Aborting when the
  trimmed text is empty leaves the suggestions as they were.
\<close>

theorem abort_registers:
  "(trim (tagText_textContent s) \<noteq> [] \<and> T \<noteq> []
      \<and> prefix (toLowerCase (trim T)) (toLowerCase (trim (tagText_textContent s))) \<longrightarrow>
      set (autoComplete (abortEdit s))
        = insert (titleCase (trim (tagText_textContent s))) (set (autoComplete s))
      \<and> titleCase (trim (tagText_textContent s))
          \<in> set (candidates (autoComplete (abortEdit s)) T)
      \<and> prediction (input T (openEdit (abortEdit s))) \<noteq> None
      \<and> tagText_textContent (abortEdit s) = originalText s)
   \<and> (trim (tagText_textContent u) = [] \<longrightarrow>
        autoComplete (abortEdit u) = autoComplete u
        \<and> tagText_textContent (abortEdit u) = originalText u)"
proof (intro conjI impI)
  assume a: "trim (tagText_textContent s) \<noteq> [] \<and> T \<noteq> []
      \<and> prefix (toLowerCase (trim T)) (toLowerCase (trim (tagText_textContent s)))"
  let ?v = "titleCase (trim (tagText_textContent s))"
  show reg: "set (autoComplete (abortEdit s)) = insert ?v (set (autoComplete s))"
    using a by (simp add: abortEdit_autoComplete set_uniq)
  show cand: "?v \<in> set (candidates (autoComplete (abortEdit s)) T)"
    using a by (simp add: candidates_set reg toLowerCase_titleCase)
  then have c: "candidates (autoComplete (abortEdit s)) T \<noteq> []" by auto
  then have n: "autoComplete (abortEdit s) \<noteq> []" by (auto simp: candidates_Nil)
  show "prediction (input T (openEdit (abortEdit s))) \<noteq> None"
    using a c n by (simp add: input_prediction openEdit_autoComplete)
  show "tagText_textContent (abortEdit s) = originalText s"
    by (rule abortEdit_value)
next
  assume "trim (tagText_textContent u) = []"
  then show "autoComplete (abortEdit u) = autoComplete u"
    by (simp add: abortEdit_autoComplete)
next
  show "tagText_textContent (abortEdit u) = originalText u"
    by (rule abortEdit_value)
qed

text \<open>
  The claim as first stated registers the trimmed value itself. \<open>addAutoComplete\<close> title-cases
  what it is given: after typing \<open>mango\<close> and aborting, the suggestions hold \<open>Mango\<close> and
  not \<open>mango\<close>.
\<close>

theorem abort_registers_counterexample:
  "trim (tagText_textContent (input ''mango'' (openEdit (editableTag ''Fruit'' [])))) = ''mango''
   \<and> autoComplete (abortEdit (input ''mango'' (openEdit (editableTag ''Fruit'' [])))) = [''Mango'']"
  by code_simp

theorem abort_registers_witness:
  "trim (tagText_textContent (input ''Mango'' (openEdit (editableTag ''Fruit'' [])))) = ''Mango''
   \<and> autoComplete (input ''Mango'' (openEdit (editableTag ''Fruit'' []))) = []
   \<and> set (autoComplete (abortEdit (input ''Mango'' (openEdit (editableTag ''Fruit'' [])))))
       = {''Mango''}
   \<and> ''Mango'' \<in> set (candidates
         (autoComplete (abortEdit (input ''Mango'' (openEdit (editableTag ''Fruit'' []))))) ''ma'')
   \<and> prediction (input ''ma''
        (openEdit (abortEdit (input ''Mango'' (openEdit (editableTag ''Fruit'' [])))))) \<noteq> None
   \<and> tagText_textContent (abortEdit (input ''Mango'' (openEdit (editableTag ''Fruit'' []))))
       = ''Fruit''
   \<and> trim (tagText_textContent (input [] (openEdit (editableTag ''Fruit'' [])))) = []
   \<and> autoComplete (abortEdit (input [] (openEdit (editableTag ''Fruit'' [])))) = []"
proof -
  let ?s = "input ''Mango'' (openEdit (editableTag ''Fruit'' []))"
  let ?u = "input [] (openEdit (editableTag ''Fruit'' []))"
  have s1: "trim (tagText_textContent ?s) = ''Mango''" by code_simp
  have s2: "''ma'' \<noteq> []" by simp
  have s3: "prefix (toLowerCase (trim ''ma'')) (toLowerCase (trim (tagText_textContent ?s)))"
    by code_simp
  have s4: "trim (tagText_textContent ?s) \<noteq> []" by (simp add: s1)
  have s5: "titleCase ''Mango'' = ''Mango''" by code_simp
  have s6: "autoComplete ?s = []" by code_simp
  have s7: "originalText ?s = ''Fruit''" by code_simp
  have u1: "trim (tagText_textContent ?u) = []" by code_simp
  have u2: "autoComplete ?u = []" by code_simp
  note th = abort_registers [of ?s "''ma''" ?u]
  have c1: "set (autoComplete (abortEdit ?s))
        = insert (titleCase (trim (tagText_textContent ?s))) (set (autoComplete ?s))"
    using th s4 s2 s3 by blast
  have c2: "titleCase (trim (tagText_textContent ?s))
          \<in> set (candidates (autoComplete (abortEdit ?s)) ''ma'')"
    using th s4 s2 s3 by blast
  have c3: "prediction (input ''ma'' (openEdit (abortEdit ?s))) \<noteq> None"
    using th s4 s2 s3 by blast
  have c4: "tagText_textContent (abortEdit ?s) = originalText ?s"
    using th s4 s2 s3 by blast
  have c5: "autoComplete (abortEdit ?u) = autoComplete ?u"
    using th u1 by blast
  have c1': "set (autoComplete (abortEdit ?s)) = {''Mango''}"
  proof -
    have "set (autoComplete (abortEdit ?s)) = insert ''Mango'' (set [])"
      using c1 by (simp only: s1 s5 s6)
    then show ?thesis by simp
  qed
  have c2': "''Mango'' \<in> set (candidates (autoComplete (abortEdit ?s)) ''ma'')"
    using c2 by (simp only: s1 s5)
  have c4': "tagText_textContent (abortEdit ?s) = ''Fruit''"
    using c4 by (simp add: s7)
  have c5': "autoComplete (abortEdit ?u) = []"
    using c5 by (simp add: u2)
  show ?thesis
    using s1 s6 c1' c2' c3 c4' u1 c5' by blast
qed

text \<open>
  C8 (as amended). The entry transition, \<open>openEdit\<close>, also when called through \<open>edit\<close>,
  leaves every field of the component unchanged whenever editing is disabled.
\<close>

theorem entry_noop_when_disabled:
  "\<not> editable s \<longrightarrow> openEdit s = s \<and> edit s = s"
  by (simp add: openEdit_def edit_def)

text \<open>
  The claim as first stated also makes the entry a no-op when a session exists. \<open>openEdit\<close>
  has no such test: called during a session it takes the snapshot again, from the draft.
\<close>

theorem entry_noop_counterexample:
  "editable (input ''Ban'' (openEdit (editableTag ''Apple'' [])))
   \<and> contenteditable (input ''Ban'' (openEdit (editableTag ''Apple'' [])))
   \<and> originalText (input ''Ban'' (openEdit (editableTag ''Apple'' []))) = ''Apple''
   \<and> originalText (edit (input ''Ban'' (openEdit (editableTag ''Apple'' [])))) = ''Ban''"
  by code_simp

theorem entry_noop_when_disabled_witness:
  "\<not> editable (constructor ''Apple'' None)
   \<and> openEdit (constructor ''Apple'' None) = constructor ''Apple'' None
   \<and> edit (constructor ''Apple'' None) = constructor ''Apple'' None"
proof -
  have h: "\<not> editable (constructor ''Apple'' None)" by code_simp
  from entry_noop_when_disabled [of "constructor ''Apple'' None"] h show ?thesis
    by blast
qed

text \<open>
  C9. Assigning a value that is not an array to \<open>autoComplete\<close>, or one that is not a string
  to \<open>textContent\<close>, logs one line with \<open>console.error\<close> and changes nothing else. Both
  setters are total functions of the state: there is no statement in them that can throw.
\<close>

theorem invalid_assignment_ignored:
  "((\<forall>xs. v \<noteq> JArray xs) \<longrightarrow>
      set_autoComplete v s = s\<lparr>console := console s @ [''auto-complete must be an array'']\<rparr>)
   \<and> ((\<forall>str. w \<noteq> JString str) \<longrightarrow>
      set_textContent w s = s\<lparr>console := console s @ [''textContent must be a string'']\<rparr>)"
proof (intro conjI impI)
  assume "\<forall>xs. v \<noteq> JArray xs"
  then show "set_autoComplete v s
               = s\<lparr>console := console s @ [''auto-complete must be an array'']\<rparr>"
    by (cases v) (simp_all add: set_autoComplete_def console_error_def)
next
  assume "\<forall>str. w \<noteq> JString str"
  then show "set_textContent w s
               = s\<lparr>console := console s @ [''textContent must be a string'']\<rparr>"
    by (cases w) (simp_all add: set_textContent_def console_error_def)
qed

theorem invalid_assignment_ignored_witness:
  "set_autoComplete (JString ''Dog'') (editableTag ''Apple'' [''Apple''])
     = (editableTag ''Apple'' [''Apple''])\<lparr>console := [''auto-complete must be an array'']\<rparr>
   \<and> set_textContent (JNumber 42) (editableTag ''Apple'' [''Apple''])
     = (editableTag ''Apple'' [''Apple''])\<lparr>console := [''textContent must be a string'']\<rparr>"
proof -
  let ?s = "editableTag ''Apple'' [''Apple'']"
  have h1: "\<forall>xs. JString ''Dog'' \<noteq> JArray xs" by simp
  have h2: "\<forall>str. JNumber 42 \<noteq> JString str" by simp
  have c: "console ?s = []" by code_simp
  from invalid_assignment_ignored [of "JString ''Dog''" ?s "JNumber 42"] h1 h2
  have "set_autoComplete (JString ''Dog'') ?s
          = ?s\<lparr>console := console ?s @ [''auto-complete must be an array'']\<rparr>
      \<and> set_textContent (JNumber 42) ?s
          = ?s\<lparr>console := console ?s @ [''textContent must be a string'']\<rparr>"
    by blast
  then show ?thesis by (simp only: c append_Nil)
qed

text \<open>
  C10 (as amended). The \<open>textContent\<close> getter returns \<open>originalText\<close>: after an assignment
  the trimmed assigned value, after a confirm the confirmed value, after an abort what it
  returned before, and after an entry transition with editing enabled, also one made through
  \<open>edit\<close>, the trimmed element text found at that entry. Typing never changes it: during a
  session it returns the snapshot of the latest entry, whatever is typed after that entry.
\<close>

theorem getter_returns_snapshot:
  "get_textContent s = originalText s
   \<and> get_textContent (fold input Ds (openEdit s)) = get_textContent (openEdit s)
   \<and> (editable s \<longrightarrow>
        get_textContent (openEdit s) = trim (tagText_textContent s)
        \<and> get_textContent (edit s) = trim (tagText_textContent s))
   \<and> get_textContent (set_textContent (JString v) s) = trim v
   \<and> get_textContent (confirmEdit s) = tagText_textContent (confirmEdit s)
   \<and> get_textContent (abortEdit s) = get_textContent s"
  by (simp add: get_textContent_def fold_input_originalText openEdit_originalText edit_def
        set_textContent_shown confirmEdit_originalText abortEdit_def Let_def dom_defs)

text \<open>
  The claim as first stated has the getter return the value from before the session for as
  long as the session lasts. \<open>openEdit\<close> does not test for a session: when \<open>edit\<close> is called
  during one, the snapshot is taken again from the live element text. With the label
  \<open>Apple\<close>, the suggestion \<open>Banana\<close> and the draft \<open>Ban\<close>, the getter returns \<open>Apple\<close>
  before that call and \<open>Banana\<close>, the draft with its ghost text, after it.
\<close>

theorem getter_returns_snapshot_counterexample:
  "editable (input ''Ban'' (openEdit (editableTag ''Apple'' [''Banana''])))
   \<and> contenteditable (input ''Ban'' (openEdit (editableTag ''Apple'' [''Banana''])))
   \<and> get_textContent (input ''Ban'' (openEdit (editableTag ''Apple'' [''Banana''])))
       = ''Apple''
   \<and> tagText_textContent (input ''Ban'' (openEdit (editableTag ''Apple'' [''Banana''])))
       = ''Banana''
   \<and> get_textContent (edit (input ''Ban'' (openEdit (editableTag ''Apple'' [''Banana'']))))
       = ''Banana''"
  by code_simp

theorem getter_returns_snapshot_witness:
  "editable (editableTag ''Apple'' [''Apple''])
   \<and> tagText_textContent (fold input [''B'', ''Ba''] (openEdit (editableTag ''Apple'' [''Apple''])))
       = ''Ba''
   \<and> get_textContent (fold input [''B'', ''Ba''] (openEdit (editableTag ''Apple'' [''Apple''])))
       = ''Apple''
   \<and> get_textContent (edit (editableTag ''Apple'' [''Apple''])) = ''Apple''"
proof -
  let ?s = "editableTag ''Apple'' [''Apple'']"
  have h: "editable ?s" by code_simp
  have t: "trim (tagText_textContent ?s) = ''Apple''" by code_simp
  have d: "tagText_textContent (fold input [''B'', ''Ba''] (openEdit ?s)) = ''Ba''" by code_simp
  note th = getter_returns_snapshot [of ?s "[''B'', ''Ba'']"]
  have a: "get_textContent (fold input [''B'', ''Ba''] (openEdit ?s)) = get_textContent (openEdit ?s)"
    using th by blast
  have b: "get_textContent (openEdit ?s) = trim (tagText_textContent ?s)"
    using th h by blast
  have c: "get_textContent (edit ?s) = trim (tagText_textContent ?s)"
    using th h by blast
  show ?thesis using h d a b c t by simp
qed

end
